theory Spec2Isabelle
  imports Complex_Main "HOL-Library.Multiset"
begin

section \<open>The d2 estimator\<close>

text \<open>
  The source computes with IEEE doubles through numpy, scipy and pandas. The embedding
  computes with exact real numbers: rounding, overflow and the sign of zero are not
  modelled. The standard normal distribution function of scipy
  (\<^verbatim>\<open>stats.norm().cdf\<close>) is a library function outside the repository; every definition
  takes it as the parameter \<open>cdf\<close>.
\<close>

text \<open>
  \<^verbatim>\<open>np.linspace(start, stop, num, retstep=True)\<close>: \<open>num\<close> equally spaced points and the step.
  numpy computes \<open>arange(num) * step + start\<close> and then overwrites the last point with
  \<open>stop\<close>.
\<close>

definition linspace :: "real \<Rightarrow> real \<Rightarrow> nat \<Rightarrow> real list \<times> real" where
  "linspace start stop num =
     (let step = (stop - start) / real (num - 1);
          y = map (\<lambda>i. real i * step + start) [0..<num]
      in (y[num - 1 := stop], step))"

text \<open>
  \<^verbatim>\<open>np.trapz(y, dx=dx)\<close>, which numpy evaluates as
  \<^verbatim>\<open>(dx * (y[1:] + y[:-1]) / 2.0).sum()\<close>.
\<close>

definition trapz :: "real list \<Rightarrow> real \<Rightarrow> real" where
  "trapz y dx = sum_list (map (\<lambda>(a, b). dx * (a + b) / 2) (zip (tl y) (butlast y)))"

text \<open>
  \<^verbatim>\<open>calculate_d2(n)\<close>. The exponent is a natural number here: a negative \<open>n\<close> is outside the
  model. As in numpy, a zeroth power is one.
\<close>

definition calculate_d2 :: "(real \<Rightarrow> real) \<Rightarrow> nat \<Rightarrow> real" where
  "calculate_d2 cdf n =
     (let (approx_x, dx) = linspace (- 20) 20 1001;
          sample_vals = map (\<lambda>x. 1 - (1 - cdf x) ^ n - cdf x ^ n) approx_x
      in trapz sample_vals dx)"

section \<open>Doubles with their special values\<close>

text \<open>
  A double is a finite real, an infinity or NaN. The operations below are the IEEE ones
  on these values with exact arithmetic on the finite part; a zero is the positive zero.
  The quotients of numpy and pandas do not raise on a zero divisor: they give an infinity
  or NaN.
\<close>

datatype fl = Fin real | PInf | NInf | NaN

fun fneg :: "fl \<Rightarrow> fl" where
  "fneg (Fin a) = Fin (- a)"
| "fneg PInf = NInf"
| "fneg NInf = PInf"
| "fneg NaN = NaN"

fun fadd :: "fl \<Rightarrow> fl \<Rightarrow> fl" where
  "fadd NaN _ = NaN"
| "fadd _ NaN = NaN"
| "fadd (Fin a) (Fin b) = Fin (a + b)"
| "fadd PInf NInf = NaN"
| "fadd NInf PInf = NaN"
| "fadd PInf _ = PInf"
| "fadd _ PInf = PInf"
| "fadd NInf _ = NInf"
| "fadd _ NInf = NInf"

definition fsub :: "fl \<Rightarrow> fl \<Rightarrow> fl" where
  "fsub a b = fadd a (fneg b)"

fun fmul :: "fl \<Rightarrow> fl \<Rightarrow> fl" where
  "fmul NaN _ = NaN"
| "fmul _ NaN = NaN"
| "fmul (Fin a) (Fin b) = Fin (a * b)"
| "fmul (Fin a) PInf = (if a = 0 then NaN else if 0 < a then PInf else NInf)"
| "fmul (Fin a) NInf = (if a = 0 then NaN else if 0 < a then NInf else PInf)"
| "fmul PInf (Fin b) = (if b = 0 then NaN else if 0 < b then PInf else NInf)"
| "fmul NInf (Fin b) = (if b = 0 then NaN else if 0 < b then NInf else PInf)"
| "fmul PInf PInf = PInf"
| "fmul NInf NInf = PInf"
| "fmul PInf NInf = NInf"
| "fmul NInf PInf = NInf"

fun fdiv :: "fl \<Rightarrow> fl \<Rightarrow> fl" where
  "fdiv NaN _ = NaN"
| "fdiv _ NaN = NaN"
| "fdiv (Fin a) (Fin b) =
     (if b \<noteq> 0 then Fin (a / b)
      else if 0 < a then PInf else if a < 0 then NInf else NaN)"
| "fdiv (Fin a) _ = Fin 0"
| "fdiv PInf (Fin b) = (if 0 \<le> b then PInf else NInf)"
| "fdiv NInf (Fin b) = (if 0 \<le> b then NInf else PInf)"
| "fdiv _ _ = NaN"

text \<open>The comparison \<open><\<close> of doubles: false as soon as one side is NaN.\<close>

fun flt :: "fl \<Rightarrow> fl \<Rightarrow> bool" where
  "flt NaN _ = False"
| "flt _ NaN = False"
| "flt (Fin a) (Fin b) = (a < b)"
| "flt NInf NInf = False"
| "flt NInf _ = True"
| "flt PInf _ = False"
| "flt (Fin a) PInf = True"
| "flt (Fin a) NInf = False"

text \<open>\<^verbatim>\<open>np.min([a, b])\<close>: the smaller of two doubles, NaN when one of them is NaN.\<close>

fun np_min :: "fl \<Rightarrow> fl \<Rightarrow> fl" where
  "np_min NaN _ = NaN"
| "np_min _ NaN = NaN"
| "np_min a b = (if flt b a then b else a)"

text \<open>
  Python's builtin \<^verbatim>\<open>min([a, b])\<close>: the first element unless the second compares smaller.
\<close>

definition py_min :: "fl \<Rightarrow> fl \<Rightarrow> fl" where
  "py_min a b = (if flt b a then b else a)"

text \<open>\<^verbatim>\<open>np.mean\<close> of a list of doubles: NaN for the empty list, NaN is not skipped.\<close>

definition np_mean :: "fl list \<Rightarrow> fl" where
  "np_mean vs = (if vs = [] then NaN else fdiv (fold (\<lambda>v acc. fadd acc v) vs (Fin 0)) (Fin (real (length vs))))"

section \<open>Series reductions of pandas\<close>

text \<open>
  A sample series is a list of finite reals. \<^verbatim>\<open>Series.mean()\<close>, \<^verbatim>\<open>Series.std()\<close> (sample
  standard deviation, \<open>ddof = 1\<close>), \<^verbatim>\<open>Series.min()\<close> and \<^verbatim>\<open>Series.max()\<close> return NaN where
  pandas has no value to return: on the empty series, and for \<open>std\<close> also on a single
  sample.
\<close>

definition series_mean :: "real list \<Rightarrow> fl" where
  "series_mean xs = (if xs = [] then NaN else Fin (sum_list xs / real (length xs)))"

definition series_std :: "real list \<Rightarrow> fl" where
  "series_std xs =
     (if length xs \<le> 1 then NaN
      else let avg = sum_list xs / real (length xs)
           in Fin (sqrt (sum_list (map (\<lambda>x. (avg - x)\<^sup>2) xs) / real (length xs - 1))))"

definition series_min :: "real list \<Rightarrow> fl" where
  "series_min xs = (if xs = [] then NaN else Fin (Min (set xs)))"

definition series_max :: "real list \<Rightarrow> fl" where
  "series_max xs = (if xs = [] then NaN else Fin (Max (set xs)))"

text \<open>
  \<^verbatim>\<open>Series.mean()\<close> on a series that may hold NaN (the rolling results): NaN entries are
  skipped, and the mean of nothing is NaN.
\<close>

definition nan_mean :: "fl list \<Rightarrow> fl" where
  "nan_mean vs = np_mean (filter (\<lambda>v. v \<noteq> NaN) vs)"

text \<open>
  \<^verbatim>\<open>samples.rolling(window)\<close>: at position \<open>i\<close> the window holds the samples at the positions
  \<open>i + 1 - window\<close> (or 0 when that is negative) to \<open>i\<close>. A reduction of the window has a
  value only when the window holds \<open>window\<close> samples (\<open>min_periods\<close> defaults to the window
  size) and is not empty; otherwise the entry is NaN.
\<close>

definition rolling :: "nat \<Rightarrow> real list \<Rightarrow> real list list" where
  "rolling w xs = map (\<lambda>i. drop (i + 1 - w) (take (i + 1) xs)) [0..<length xs]"

definition rolling_max :: "nat \<Rightarrow> real list \<Rightarrow> fl list" where
  "rolling_max w xs =
     map (\<lambda>win. if win \<noteq> [] \<and> w \<le> length win then Fin (Max (set win)) else NaN) (rolling w xs)"

definition rolling_min :: "nat \<Rightarrow> real list \<Rightarrow> fl list" where
  "rolling_min w xs =
     map (\<lambda>win. if win \<noteq> [] \<and> w \<le> length win then Fin (Min (set win)) else NaN) (rolling w xs)"

section \<open>The process analyzer\<close>

datatype error = ValueError

record process_result =
  sample_size :: nat
  mean :: fl
  std :: fl
  std_within :: fl
  ppk :: fl
  cpk :: fl
  min_val :: fl
  max_val :: fl

text \<open>
  \<^verbatim>\<open>calculate_process(samples, LSL, USL, window)\<close>. The only exception on the way is the
  \<^verbatim>\<open>ValueError\<close> of \<^verbatim>\<open>rolling\<close> for a negative window.
\<close>

definition calculate_process ::
  "(real \<Rightarrow> real) \<Rightarrow> real list \<Rightarrow> real \<Rightarrow> real \<Rightarrow> int \<Rightarrow> error + process_result" where
  "calculate_process cdf samples LSL USL window =
     (let mu = series_mean samples;
          sd = series_std samples
      in if window < 0 then Inl ValueError
         else
           let w = nat window;
               Rbar = map2 fsub (rolling_max w samples) (rolling_min w samples);
               sw = nan_mean (map (\<lambda>r. fdiv r (Fin (calculate_d2 cdf w))) Rbar);
               pp = np_min (fdiv (fsub (Fin USL) mu) (fmul (Fin 3) sd))
                           (fdiv (fsub mu (Fin LSL)) (fmul (Fin 3) sd));
               cp = np_min (fdiv (fsub (Fin USL) mu) (fmul (Fin 3) sw))
                           (fdiv (fsub mu (Fin LSL)) (fmul (Fin 3) sw))
           in Inr \<lparr>sample_size = length samples, mean = mu, std = sd, std_within = sw,
                    ppk = pp, cpk = cp,
                    min_val = series_min samples, max_val = series_max samples\<rparr>)"

section \<open>The p-value estimator\<close>

text \<open>
  \<^verbatim>\<open>stats.norm(loc, scale).cdf(x)\<close>: the standard distribution function at the standardised
  point; scipy answers NaN when the scale is not positive.
\<close>

definition norm_cdf :: "(real \<Rightarrow> real) \<Rightarrow> real \<Rightarrow> real \<Rightarrow> real \<Rightarrow> fl" where
  "norm_cdf cdf loc scale x = (if 0 < scale then Fin (cdf ((x - loc) / scale)) else NaN)"

definition calculate_p_value :: "(real \<Rightarrow> real) \<Rightarrow> real \<Rightarrow> real \<Rightarrow> real list \<Rightarrow> fl" where
  "calculate_p_value cdf mu sd samples =
     np_mean (map (\<lambda>s. fmul (Fin 2) (py_min (fsub (Fin 1) (norm_cdf cdf mu sd s)) (norm_cdf cdf mu sd s)))
                  samples)"

section \<open>Notions of the specification\<close>

text \<open>
  The subgroup ranges \<open>R\<close> as the specification words them: one range, maximum minus
  minimum, for every contiguous window of \<open>w\<close> samples, the windows sliding by one
  position; \<open>length - w + 1\<close> windows when the series is long enough, none otherwise.
\<close>

definition window_ranges :: "nat \<Rightarrow> real list \<Rightarrow> real list" where
  "window_ranges w xs =
     map (\<lambda>i. Max (set (take w (drop i xs))) - Min (set (take w (drop i xs))))
         [0..<length xs + 1 - w]"

definition arith_mean :: "real list \<Rightarrow> real" where
  "arith_mean xs = sum_list xs / real (length xs)"

text \<open>
  A distribution function for the instances at which the theorems are witnessed: it
  increases from 0 to 1 and is one half at the origin.
\<close>

definition softsign_cdf :: "real \<Rightarrow> real" where
  "softsign_cdf x = (1 + x / (1 + \<bar>x\<bar>)) / 2"

section \<open>Properties of the d2 estimator\<close>

subsection \<open>The grid and the trapezoidal sum\<close>

lemma linspace_grid:
  "linspace (- 20) 20 1001 = (map (\<lambda>i. real i / 25 - 20) [0..<1001], 1 / 25)"
proof -
  have "(map (\<lambda>i. real i * (1 / 25) + (- 20)) [0..<1001])[1000 := 20]
        = map (\<lambda>i. real i / 25 - 20) [0..<1001]"
    by (rule nth_equalityI) (auto simp: nth_list_update)
  then show ?thesis
    by (simp add: linspace_def Let_def)
qed

lemma trapz_sum:
  "trapz y dx = (\<Sum>i<length y - 1. dx * (y ! Suc i + y ! i) / 2)"
proof -
  let ?zs = "zip (tl y) (butlast y)"
  have len: "length ?zs = length y - 1" by simp
  have "trapz y dx = (\<Sum>i = 0..<length ?zs. (map (\<lambda>(a, b). dx * (a + b) / 2) ?zs) ! i)"
    unfolding trapz_def by (subst sum_list_sum_nth) simp
  also have "\<dots> = (\<Sum>i = 0..<length y - 1. dx * (y ! Suc i + y ! i) / 2)"
    unfolding len by (rule sum.cong) (auto simp: nth_tl nth_butlast)
  finally show ?thesis by (simp add: atLeast0LessThan)
qed

lemma trapz_map_sum:
  "trapz (map f xs) dx = (\<Sum>i<length xs - 1. dx * (f (xs ! Suc i) + f (xs ! i)) / 2)"
  unfolding trapz_sum by (rule sum.cong) auto

lemma trapz_const:
  assumes "\<And>x. x \<in> set xs \<Longrightarrow> f x = c"
  shows "trapz (map f xs) dx = real (length xs - 1) * (dx * c)"
proof -
  have "(\<Sum>i<length xs - 1. dx * (f (xs ! Suc i) + f (xs ! i)) / 2) = (\<Sum>i<length xs - 1. dx * c)"
    by (rule sum.cong) (auto simp: assms)
  then show ?thesis
    unfolding trapz_map_sum by simp
qed

lemma trapz_mono:
  assumes "0 \<le> dx" and "\<And>x. x \<in> set xs \<Longrightarrow> f x \<le> g x"
  shows "trapz (map f xs) dx \<le> trapz (map g xs) dx"
  unfolding trapz_map_sum
proof (rule sum_mono)
  fix i assume "i \<in> {..<length xs - 1}"
  then have "f (xs ! Suc i) \<le> g (xs ! Suc i)" "f (xs ! i) \<le> g (xs ! i)"
    using assms(2) by auto
  then have "f (xs ! Suc i) + f (xs ! i) \<le> g (xs ! Suc i) + g (xs ! i)"
    by (rule add_mono)
  then show "dx * (f (xs ! Suc i) + f (xs ! i)) / 2 \<le> dx * (g (xs ! Suc i) + g (xs ! i)) / 2"
    using assms(1) by (simp add: mult_left_mono divide_right_mono)
qed

lemma calculate_d2_grid:
  "calculate_d2 cdf n = trapz (map (\<lambda>x. 1 - (1 - cdf x) ^ n - cdf x ^ n) (map (\<lambda>i. real i / 25 - 20) [0..<1001])) (1 / 25)"
  by (simp only: calculate_d2_def linspace_grid Let_def prod.case)

lemma d2_zero: "calculate_d2 cdf 0 = - 40"
  unfolding calculate_d2_grid by (subst trapz_const[where c = "- 1"]) simp_all

lemma d2_one: "calculate_d2 cdf 1 = 0"
  unfolding calculate_d2_grid by (subst trapz_const[where c = 0]) simp_all

lemma pow_sum_le_one:
  fixes p :: real
  assumes "0 \<le> p" "p \<le> 1" "1 \<le> n"
  shows "(1 - p) ^ n + p ^ n \<le> 1"
proof -
  obtain k where n: "n = Suc k" using assms(3) by (cases n) auto
  have "p ^ k \<le> 1" "(1 - p) ^ k \<le> 1"
    using assms by (simp_all add: power_le_one)
  then have "p * p ^ k \<le> p * 1" "(1 - p) * (1 - p) ^ k \<le> (1 - p) * 1"
    using assms by (simp_all add: mult_left_mono del: mult_1_right)
  then show ?thesis by (simp add: n)
qed

lemma integrand_mono:
  fixes p :: real
  assumes "0 \<le> p" "p \<le> 1" "m \<le> n"
  shows "1 - (1 - p) ^ m - p ^ m \<le> 1 - (1 - p) ^ n - p ^ n"
proof -
  have "p ^ n \<le> p ^ m" "(1 - p) ^ n \<le> (1 - p) ^ m"
    using assms by (simp_all add: power_decreasing)
  then show ?thesis by simp
qed

lemma d2_mono:
  assumes "\<And>x. 0 \<le> cdf x \<and> cdf x \<le> 1" "m \<le> n"
  shows "calculate_d2 cdf m \<le> calculate_d2 cdf n"
  unfolding calculate_d2_grid
  by (rule trapz_mono) (use assms in \<open>simp_all add: integrand_mono\<close>)

lemma d2_nonneg:
  assumes "\<And>x. 0 \<le> cdf x \<and> cdf x \<le> 1" "1 \<le> n"
  shows "0 \<le> calculate_d2 cdf n"
proof -
  have "calculate_d2 cdf 1 \<le> calculate_d2 cdf n"
    using assms by (intro d2_mono) auto
  then show ?thesis using d2_one[of cdf] by simp
qed

lemma d2_pos:
  assumes cdf: "\<And>x. 0 \<le> cdf x \<and> cdf x \<le> 1" and half: "cdf 0 = 1 / 2" and n: "2 \<le> n"
  shows "0 < calculate_d2 cdf n"
proof -
  let ?xs = "map (\<lambda>i. real i / 25 - 20) [0..<1001]"
  let ?f = "\<lambda>x. 1 - (1 - cdf x) ^ n - cdf x ^ n"
  have nonneg: "0 \<le> ?f x" for x
    using pow_sum_le_one[of "cdf x" n] cdf[of x] n by simp
  have x500: "?xs ! 500 = 0" by simp
  have "(1 / 2 :: real) ^ n \<le> (1 / 2) ^ 2"
    using n by (intro power_decreasing) auto
  then have f0: "0 < ?f 0"
    by (simp add: half power2_eq_square)
  have "0 < (\<Sum>i<length ?xs - 1. 1 / 25 * (?f (?xs ! Suc i) + ?f (?xs ! i)) / 2)"
  proof (rule sum_pos2[where i = 500])
    show "0 < 1 / 25 * (?f (?xs ! Suc 500) + ?f (?xs ! 500)) / 2"
      unfolding x500 using f0 nonneg[of "?xs ! Suc 500"] by simp
  next
    fix i assume "i \<in> {..<length ?xs - 1}"
    show "0 \<le> 1 / 25 * (?f (?xs ! Suc i) + ?f (?xs ! i)) / 2"
      using nonneg[of "?xs ! Suc i"] nonneg[of "?xs ! i"] by simp
  qed simp_all
  then show ?thesis
    unfolding calculate_d2_grid trapz_map_sum .
qed

lemma softsign_cdf_range: "0 \<le> softsign_cdf x \<and> softsign_cdf x \<le> 1"
proof -
  have pos: "0 < 1 + \<bar>x\<bar>" by simp
  have "- 1 \<le> x / (1 + \<bar>x\<bar>)" "x / (1 + \<bar>x\<bar>) \<le> 1"
    using pos by (simp_all add: pos_le_divide_eq pos_divide_le_eq)
  then show ?thesis
    unfolding softsign_cdf_def by simp
qed

lemma softsign_cdf_zero: "softsign_cdf 0 = 1 / 2"
  by (simp add: softsign_cdf_def)

subsection \<open>Claims about \<open>calculate_d2\<close>\<close>

text \<open>
  C10: \<open>calculate_d2 0\<close> is \<open>- 40\<close>, a negative value, whatever the distribution function:
  every integrand value is \<open>1 - 1 - 1\<close> and the trapezoidal rule integrates the constant
  \<open>- 1\<close> over an interval of length 40.
\<close>

theorem calculate_d2_at_zero: "calculate_d2 cdf 0 = - 40 \<and> calculate_d2 cdf 0 < 0"
  by (simp add: d2_zero)

text \<open>
  C4: for a distribution function with values between 0 and 1 and every \<open>n \<ge> 1\<close>,
  \<open>calculate_d2 n\<close> is non-negative; \<open>calculate_d2 1\<close> is zero.
\<close>

theorem calculate_d2_nonneg:
  assumes "\<forall>x. 0 \<le> cdf x \<and> cdf x \<le> 1" and "1 \<le> n"
  shows "0 \<le> calculate_d2 cdf n \<and> calculate_d2 cdf 1 = 0"
  using assms d2_nonneg[of cdf n] d2_one[of cdf] by simp

theorem calculate_d2_nonneg_witness:
  "(\<forall>x. 0 \<le> softsign_cdf x \<and> softsign_cdf x \<le> 1) \<and> (1::nat) \<le> 3
   \<and> 0 \<le> calculate_d2 softsign_cdf 3 \<and> calculate_d2 softsign_cdf 1 = 0"
proof -
  have r: "\<forall>x. 0 \<le> softsign_cdf x \<and> softsign_cdf x \<le> 1"
    by (simp add: softsign_cdf_range)
  have n: "(1::nat) \<le> 3" by simp
  show ?thesis
    using r n calculate_d2_nonneg[OF r n] by simp
qed

text \<open>
  C5: for a distribution function with values between 0 and 1, \<open>calculate_d2\<close> is
  monotonically non-decreasing on the integers from 1.
\<close>

theorem calculate_d2_mono:
  assumes "\<forall>x. 0 \<le> cdf x \<and> cdf x \<le> 1" and "1 \<le> m" and "m \<le> n"
  shows "calculate_d2 cdf m \<le> calculate_d2 cdf n"
  using assms d2_mono[of cdf m n] by simp

theorem calculate_d2_mono_witness:
  "(\<forall>x. 0 \<le> softsign_cdf x \<and> softsign_cdf x \<le> 1) \<and> (1::nat) \<le> 2 \<and> (2::nat) \<le> 5
   \<and> calculate_d2 softsign_cdf 2 \<le> calculate_d2 softsign_cdf 5"
proof -
  have r: "\<forall>x. 0 \<le> softsign_cdf x \<and> softsign_cdf x \<le> 1"
    by (simp add: softsign_cdf_range)
  have m: "(1::nat) \<le> 2" and n: "(2::nat) \<le> 5" by simp_all
  show ?thesis
    using r calculate_d2_mono[OF r m n] by simp
qed

section \<open>Means of doubles and the p-value\<close>

lemma fold_fadd_Fin:
  "fold (\<lambda>v acc. fadd acc v) (map Fin ys) (Fin a) = Fin (a + sum_list ys)"
  by (induction ys arbitrary: a) (simp_all add: add.assoc)

lemma np_mean_Fin:
  assumes "ys \<noteq> []"
  shows "np_mean (map Fin ys) = Fin (arith_mean ys)"
  using assms by (simp add: np_mean_def fold_fadd_Fin arith_mean_def)

lemma py_min_Fin: "py_min (Fin a) (Fin b) = Fin (min a b)"
  by (simp add: py_min_def min_def)

lemma np_min_Fin: "np_min (Fin a) (Fin b) = Fin (min a b)"
  by (simp add: min_def)

lemma p_value_terms:
  assumes "0 < sd"
  shows "map (\<lambda>s. fmul (Fin 2) (py_min (fsub (Fin 1) (norm_cdf cdf mu sd s)) (norm_cdf cdf mu sd s))) samples
         = map Fin (map (\<lambda>s. 2 * min (1 - cdf ((s - mu) / sd)) (cdf ((s - mu) / sd))) samples)"
  using assms by (simp add: norm_cdf_def fsub_def py_min_Fin)

text \<open>
  C3: for a non-empty sample series and a positive standard deviation,
  \<open>calculate_p_value\<close> returns the arithmetic mean over the samples \<open>s\<close> of
  \<open>2 * min (1 - F s) (F s)\<close>, where \<open>F s = cdf ((s - mu) / sd)\<close> is the distribution function of
  the fitted normal.
\<close>

theorem calculate_p_value_mean:
  assumes "samples \<noteq> []" and "0 < sd"
  shows "calculate_p_value cdf mu sd samples =
           Fin (arith_mean (map (\<lambda>s. 2 * min (1 - cdf ((s - mu) / sd)) (cdf ((s - mu) / sd))) samples))"
proof -
  have "map (\<lambda>s. 2 * min (1 - cdf ((s - mu) / sd)) (cdf ((s - mu) / sd))) samples \<noteq> []"
    using assms(1) by simp
  then show ?thesis
    unfolding calculate_p_value_def p_value_terms[OF assms(2)] by (rule np_mean_Fin)
qed

theorem calculate_p_value_mean_witness:
  "[0, 1] \<noteq> ([] :: real list) \<and> (0::real) < 1
   \<and> calculate_p_value softsign_cdf 0 1 [0, 1] = Fin (3 / 4)"
proof -
  have a: "[0, 1] \<noteq> ([] :: real list)" and b: "(0::real) < 1" by simp_all
  show ?thesis
    using calculate_p_value_mean[OF a b, of softsign_cdf 0]
    by (simp add: arith_mean_def softsign_cdf_def)
qed

section \<open>The rolling range\<close>

lemma rolling_window_length:
  assumes "i < length xs"
  shows "length (drop (i + 1 - w) (take (i + 1) xs)) = min (i + 1) w"
  using assms by auto

lemma Rbar_eq:
  "map2 fsub (rolling_max w xs) (rolling_min w xs) =
     map (\<lambda>i. if 1 \<le> w \<and> w \<le> i + 1
               then Fin (Max (set (take w (drop (i + 1 - w) xs))) - Min (set (take w (drop (i + 1 - w) xs))))
               else NaN) [0..<length xs]"
proof (rule nth_equalityI)
  show "length (map2 fsub (rolling_max w xs) (rolling_min w xs)) =
        length (map (\<lambda>i. if 1 \<le> w \<and> w \<le> i + 1
               then Fin (Max (set (take w (drop (i + 1 - w) xs))) - Min (set (take w (drop (i + 1 - w) xs))))
               else NaN) [0..<length xs])"
    by (simp add: rolling_max_def rolling_min_def rolling_def)
next
  fix i assume "i < length (map2 fsub (rolling_max w xs) (rolling_min w xs))"
  then have i: "i < length xs"
    by (simp add: rolling_max_def rolling_min_def rolling_def)
  let ?win = "drop (i + 1 - w) (take (i + 1) xs)"
  have len: "length ?win = min (i + 1) w"
    using i by (rule rolling_window_length)
  have cond: "(?win \<noteq> [] \<and> w \<le> length ?win) \<longleftrightarrow> (1 \<le> w \<and> w \<le> i + 1)"
  proof -
    have "?win \<noteq> [] \<longleftrightarrow> 0 < length ?win" by blast
    then show ?thesis unfolding len by auto
  qed
  have win: "?win = take w (drop (i + 1 - w) xs)" if "w \<le> i + 1"
    using that by (simp add: drop_take)
  have mx: "rolling_max w xs ! i = (if ?win \<noteq> [] \<and> w \<le> length ?win then Fin (Max (set ?win)) else NaN)"
    using i unfolding rolling_max_def rolling_def by (simp del: length_drop length_take)
  have mn: "rolling_min w xs ! i = (if ?win \<noteq> [] \<and> w \<le> length ?win then Fin (Min (set ?win)) else NaN)"
    using i unfolding rolling_min_def rolling_def by (simp del: length_drop length_take)
  have lens: "i < length (rolling_max w xs)" "i < length (rolling_min w xs)"
    using i by (simp_all add: rolling_max_def rolling_min_def rolling_def)
  have m2: "map2 fsub (rolling_max w xs) (rolling_min w xs) ! i
            = fsub (rolling_max w xs ! i) (rolling_min w xs ! i)"
    using lens by simp
  have rhs: "map (\<lambda>i. if 1 \<le> w \<and> w \<le> i + 1
               then Fin (Max (set (take w (drop (i + 1 - w) xs))) - Min (set (take w (drop (i + 1 - w) xs))))
               else NaN) [0..<length xs] ! i
             = (if 1 \<le> w \<and> w \<le> i + 1
               then Fin (Max (set (take w (drop (i + 1 - w) xs))) - Min (set (take w (drop (i + 1 - w) xs))))
               else NaN)"
    using i by simp
  show "map2 fsub (rolling_max w xs) (rolling_min w xs) ! i =
        map (\<lambda>i. if 1 \<le> w \<and> w \<le> i + 1
               then Fin (Max (set (take w (drop (i + 1 - w) xs))) - Min (set (take w (drop (i + 1 - w) xs))))
               else NaN) [0..<length xs] ! i"
  proof (cases "1 \<le> w \<and> w \<le> i + 1")
    case True
    then have c: "?win \<noteq> [] \<and> w \<le> length ?win" using cond by blast
    have "fsub (rolling_max w xs ! i) (rolling_min w xs ! i)
          = Fin (Max (set ?win) - Min (set ?win))"
      unfolding mx mn if_P[OF c] by (simp add: fsub_def)
    also have "\<dots> = Fin (Max (set (take w (drop (i + 1 - w) xs))) - Min (set (take w (drop (i + 1 - w) xs))))"
      using win True by simp
    finally show ?thesis
      unfolding m2 rhs if_P[OF True] .
  next
    case False
    then have c: "\<not> (?win \<noteq> [] \<and> w \<le> length ?win)" using cond by blast
    have "fsub (rolling_max w xs ! i) (rolling_min w xs ! i) = NaN"
      unfolding mx mn if_not_P[OF c] by (simp add: fsub_def)
    then show ?thesis
      unfolding m2 rhs if_not_P[OF False] .
  qed
qed

lemma sum_list_divide_const:
  fixes f :: "'a \<Rightarrow> real"
  shows "sum_list (map (\<lambda>x. f x / d) xs) = sum_list (map f xs) / d"
  by (induction xs) (simp_all add: add_divide_distrib)

lemma arith_mean_divide:
  "arith_mean (map (\<lambda>x. x / d) ys) = arith_mean ys / d"
  using sum_list_divide_const[of "\<lambda>x. x" d ys] by (simp add: arith_mean_def)

lemma scaled_Rbar_split:
  assumes w: "1 \<le> w" "w \<le> length xs" and d: "d \<noteq> 0"
  shows "map (\<lambda>r. fdiv r (Fin d)) (map2 fsub (rolling_max w xs) (rolling_min w xs)) =
           replicate (w - 1) NaN @ map Fin (map (\<lambda>r. r / d) (window_ranges w xs))"
proof -
  let ?rng = "\<lambda>j. Max (set (take w (drop j xs))) - Min (set (take w (drop j xs)))"
  let ?g = "\<lambda>i. fdiv (if 1 \<le> w \<and> w \<le> i + 1 then Fin (?rng (i + 1 - w)) else NaN) (Fin d)"
  have split: "[0..<length xs] = [0..<w - 1] @ [w - 1..<length xs]"
    using w by (metis diff_le_self le_add_diff_inverse le_trans upt_add_eq_append zero_le)
  have low: "map ?g [0..<w - 1] = replicate (w - 1) NaN"
    by (rule nth_equalityI) auto
  have shift: "[w - 1..<length xs] = map (\<lambda>j. j + (w - 1)) [0..<length xs + 1 - w]"
  proof -
    have "length xs + 1 - w + (w - 1) = length xs" using w by simp
    then show ?thesis
      using map_add_upt[of "w - 1" "length xs + 1 - w"] by simp
  qed
  have high: "map ?g [w - 1..<length xs] = map Fin (map (\<lambda>r. r / d) (window_ranges w xs))"
    unfolding shift window_ranges_def using w d by (simp add: comp_def)
  have "map (\<lambda>r. fdiv r (Fin d)) (map2 fsub (rolling_max w xs) (rolling_min w xs)) = map ?g [0..<length xs]"
    unfolding Rbar_eq by (simp add: comp_def)
  also have "\<dots> = map ?g [0..<w - 1] @ map ?g [w - 1..<length xs]"
    by (subst split) simp
  finally show ?thesis
    unfolding low high .
qed

lemma nan_mean_padded:
  assumes "ys \<noteq> []"
  shows "nan_mean (replicate k NaN @ map Fin ys) = Fin (arith_mean ys)"
proof -
  have "filter (\<lambda>v. v \<noteq> NaN) (replicate k NaN @ map Fin ys) = map Fin ys"
    by (simp add: filter_map comp_def)
  then show ?thesis
    unfolding nan_mean_def using assms by (simp add: np_mean_Fin)
qed

lemma length_window_ranges: "length (window_ranges w xs) = length xs + 1 - w"
  by (simp add: window_ranges_def)

lemma std_within_eq:
  assumes w: "1 \<le> w" "w \<le> length xs" and d: "d \<noteq> 0"
  shows "nan_mean (map (\<lambda>r. fdiv r (Fin d)) (map2 fsub (rolling_max w xs) (rolling_min w xs)))
         = Fin (arith_mean (window_ranges w xs) / d)"
proof -
  have "window_ranges w xs \<noteq> []"
    using w length_window_ranges[of w xs] by auto
  then have ne: "map (\<lambda>r. r / d) (window_ranges w xs) \<noteq> []" by simp
  show ?thesis
    unfolding scaled_Rbar_split[OF w d] nan_mean_padded[OF ne] arith_mean_divide ..
qed

lemma calculate_process_Inr:
  assumes "0 \<le> window"
  shows "calculate_process cdf samples LSL USL window =
     Inr \<lparr>sample_size = length samples, mean = series_mean samples, std = series_std samples,
          std_within = nan_mean (map (\<lambda>r. fdiv r (Fin (calculate_d2 cdf (nat window))))
                         (map2 fsub (rolling_max (nat window) samples) (rolling_min (nat window) samples))),
          ppk = np_min (fdiv (fsub (Fin USL) (series_mean samples)) (fmul (Fin 3) (series_std samples)))
                       (fdiv (fsub (series_mean samples) (Fin LSL)) (fmul (Fin 3) (series_std samples))),
          cpk = np_min (fdiv (fsub (Fin USL) (series_mean samples))
                          (fmul (Fin 3) (nan_mean (map (\<lambda>r. fdiv r (Fin (calculate_d2 cdf (nat window))))
                         (map2 fsub (rolling_max (nat window) samples) (rolling_min (nat window) samples))))))
                       (fdiv (fsub (series_mean samples) (Fin LSL))
                          (fmul (Fin 3) (nan_mean (map (\<lambda>r. fdiv r (Fin (calculate_d2 cdf (nat window))))
                         (map2 fsub (rolling_max (nat window) samples) (rolling_min (nat window) samples)))))),
          min_val = series_min samples, max_val = series_max samples\<rparr>"
  using assms by (simp add: calculate_process_def Let_def)

text \<open>
  C1: for a window size \<open>w\<close> with \<open>2 \<le> w \<le> length samples\<close> there are
  \<open>length samples - w + 1\<close> window ranges, and the \<open>std_within\<close> field, which the code
  computes as the NaN-skipping mean of the aligned rolling maximum minus rolling minimum
  divided by \<open>calculate_d2 w\<close>, is the arithmetic mean of the window ranges divided by
  \<open>calculate_d2 w\<close>. The distribution function has values between 0 and 1 and is one half
  at the origin, which makes \<open>calculate_d2 w\<close> positive.
\<close>

theorem std_within_mean_range:
  assumes "\<forall>x. 0 \<le> cdf x \<and> cdf x \<le> 1" and "cdf 0 = 1 / 2"
    and "2 \<le> w" and "w \<le> length samples"
  shows "\<exists>r. calculate_process cdf samples LSL USL (int w) = Inr r
           \<and> length (window_ranges w samples) = length samples - w + 1
           \<and> std_within r = Fin (arith_mean (window_ranges w samples) / calculate_d2 cdf w)"
proof -
  have "0 < calculate_d2 cdf w"
    using assms by (intro d2_pos) auto
  then have d: "calculate_d2 cdf w \<noteq> 0" by simp
  have w1: "1 \<le> w" using assms(3) by simp
  have len: "length (window_ranges w samples) = length samples - w + 1"
    using assms(4) by (simp add: length_window_ranges)
  show ?thesis
    using std_within_eq[OF w1 assms(4) d, of ] len
    by (simp add: calculate_process_Inr)
qed

theorem std_within_mean_range_witness:
  "(\<forall>x. 0 \<le> softsign_cdf x \<and> softsign_cdf x \<le> 1) \<and> softsign_cdf 0 = 1 / 2
   \<and> (2::nat) \<le> 4 \<and> 4 \<le> length [1, 2, 3, 4, 5, 6, 7, 8 :: real]
   \<and> (\<exists>r. calculate_process softsign_cdf [1, 2, 3, 4, 5, 6, 7, 8] 0 9 (int 4) = Inr r
           \<and> length (window_ranges 4 [1, 2, 3, 4, 5, 6, 7, 8 :: real]) = 5
           \<and> std_within r = Fin (3 / calculate_d2 softsign_cdf 4))"
proof -
  have r: "\<forall>x. 0 \<le> softsign_cdf x \<and> softsign_cdf x \<le> 1"
    by (simp add: softsign_cdf_range)
  have h: "softsign_cdf 0 = 1 / 2" by (rule softsign_cdf_zero)
  have a: "(2::nat) \<le> 4" and b: "4 \<le> length [1, 2, 3, 4, 5, 6, 7, 8 :: real]"
    by simp_all
  have wr: "window_ranges 4 [1, 2, 3, 4, 5, 6, 7, 8 :: real] = [3, 3, 3, 3, 3]"
    by (simp add: window_ranges_def upt_rec)
  have am: "arith_mean [3, 3, 3, 3, 3 :: real] = 3"
    by (simp add: arith_mean_def)
  show ?thesis
    using r h std_within_mean_range[OF r h a b, of 0 9]
    unfolding wr am by simp
qed

section \<open>Degenerate inputs of the process analyzer\<close>

lemma fdiv_NaN_right: "fdiv x NaN = NaN"
  by (cases x) simp_all

lemma fmul_NaN_right: "fmul x NaN = NaN"
  by (cases x) simp_all

lemma np_min_NaN_right: "np_min x NaN = NaN"
  by (cases x) simp_all

lemma Rbar_short:
  assumes "length xs < w"
  shows "map2 fsub (rolling_max w xs) (rolling_min w xs) = replicate (length xs) NaN"
  unfolding Rbar_eq using assms by (intro nth_equalityI) auto

lemma rolling_max_short:
  assumes "length xs < w"
  shows "rolling_max w xs = replicate (length xs) NaN"
  unfolding rolling_max_def rolling_def using assms by (intro nth_equalityI) auto

lemma nan_mean_all_NaN: "nan_mean (replicate k NaN) = NaN"
  by (simp add: nan_mean_def np_mean_def)

text \<open>
  C8: when the series is shorter than the window, no error is raised, there is no window
  range, every rolling entry is NaN, and both \<open>std_within\<close> and \<open>cpk\<close> are NaN.
\<close>

theorem short_series_nan:
  assumes "int (length samples) < window"
  shows "\<exists>r. calculate_process cdf samples LSL USL window = Inr r
           \<and> window_ranges (nat window) samples = []
           \<and> rolling_max (nat window) samples = replicate (length samples) NaN
           \<and> std_within r = NaN \<and> cpk r = NaN"
proof -
  have w: "length samples < nat window" and w0: "0 \<le> window"
    using assms by simp_all
  have sw: "nan_mean (map (\<lambda>r. fdiv r (Fin (calculate_d2 cdf (nat window))))
              (map2 fsub (rolling_max (nat window) samples) (rolling_min (nat window) samples))) = NaN"
    unfolding Rbar_short[OF w] by (simp add: nan_mean_all_NaN)
  have wr: "window_ranges (nat window) samples = []"
    using w by (simp add: window_ranges_def)
  show ?thesis
    unfolding calculate_process_Inr[OF w0] sw
    using wr rolling_max_short[OF w]
    by (simp add: fmul_NaN_right fdiv_NaN_right)
qed

theorem short_series_nan_witness:
  "int (length [1, 2 :: real]) < 8
   \<and> (\<exists>r. calculate_process softsign_cdf [1, 2] 0 3 8 = Inr r
           \<and> window_ranges (nat 8) [1, 2] = []
           \<and> rolling_max (nat 8) [1, 2] = replicate (length [1, 2 :: real]) NaN
           \<and> std_within r = NaN \<and> cpk r = NaN)"
proof -
  have h: "int (length [1, 2 :: real]) < 8" by simp
  show ?thesis
    using h short_series_nan[OF h, of softsign_cdf 0 3] by simp
qed

lemma series_mean_const:
  assumes "0 < n"
  shows "series_mean (replicate n v) = Fin v"
  using assms by (simp add: series_mean_def sum_list_replicate)

lemma series_std_const:
  assumes "2 \<le> n"
  shows "series_std (replicate n v) = Fin 0"
proof -
  have avg: "sum_list (replicate n v) / real (length (replicate n v)) = v"
    using assms by (simp add: sum_list_replicate)
  have "map (\<lambda>x. (v - x)\<^sup>2) (replicate n v) = replicate n 0"
    by simp
  then have "sum_list (map (\<lambda>x. (v - x)\<^sup>2) (replicate n v)) = 0"
    by (simp add: sum_list_replicate)
  then show ?thesis
    unfolding series_std_def Let_def avg using assms by simp
qed

lemma window_ranges_const:
  assumes "1 \<le> w"
  shows "window_ranges w (replicate n v) = replicate (n + 1 - w) 0"
proof (rule nth_equalityI)
  show "length (window_ranges w (replicate n v)) = length (replicate (n + 1 - w) (0::real))"
    by (simp add: window_ranges_def)
next
  fix i assume "i < length (window_ranges w (replicate n v))"
  then have i: "i < n + 1 - w" by (simp add: window_ranges_def)
  then have "0 < min w (n - i)" using assms by auto
  then have "set (take w (drop i (replicate n v))) = {v}"
    by (simp add: min_def)
  then show "window_ranges w (replicate n v) ! i = replicate (n + 1 - w) 0 ! i"
    using i by (simp add: window_ranges_def)
qed

lemma arith_mean_zeros: "arith_mean (replicate k 0) = 0"
  by (simp add: arith_mean_def sum_list_replicate)

text \<open>
  C7, as amended: for a constant series of \<open>n\<close> values \<open>v\<close> with \<open>LSL < v < USL\<close> and a
  window \<open>w\<close> with \<open>2 \<le> w \<le> n\<close>, no error is raised, \<open>std\<close> and \<open>std_within\<close> are zero and
  \<open>ppk\<close> and \<open>cpk\<close> are plus infinity.
\<close>

theorem constant_series_infinite_indices:
  assumes "\<forall>x. 0 \<le> cdf x \<and> cdf x \<le> 1" and "cdf 0 = 1 / 2"
    and "2 \<le> w" and "w \<le> n" and "LSL < v" and "v < USL"
  shows "\<exists>r. calculate_process cdf (replicate n v) LSL USL (int w) = Inr r
           \<and> std r = Fin 0 \<and> std_within r = Fin 0 \<and> ppk r = PInf \<and> cpk r = PInf"
proof -
  have "0 < calculate_d2 cdf w"
    using assms by (intro d2_pos) auto
  then have d: "calculate_d2 cdf w \<noteq> 0" by simp
  have w1: "1 \<le> w" and n2: "2 \<le> n" and n0: "0 < n"
    using assms(3,4) by simp_all
  have wl: "w \<le> length (replicate n v)" using assms(4) by simp
  have sw: "nan_mean (map (\<lambda>r. fdiv r (Fin (calculate_d2 cdf w)))
              (map2 fsub (rolling_max w (replicate n v)) (rolling_min w (replicate n v)))) = Fin 0"
    unfolding std_within_eq[OF w1 wl d] window_ranges_const[OF w1] arith_mean_zeros by simp
  show ?thesis
    using assms(5,6) sw
    by (simp add: calculate_process_Inr series_mean_const[OF n0] series_std_const[OF n2] fsub_def)
qed

theorem constant_series_infinite_indices_witness:
  "(\<forall>x. 0 \<le> softsign_cdf x \<and> softsign_cdf x \<le> 1) \<and> softsign_cdf 0 = 1 / 2
   \<and> (2::nat) \<le> 3 \<and> (3::nat) \<le> 4 \<and> (0::real) < 5 \<and> (5::real) < 10
   \<and> (\<exists>r. calculate_process softsign_cdf (replicate 4 5) 0 10 (int 3) = Inr r
           \<and> std r = Fin 0 \<and> std_within r = Fin 0 \<and> ppk r = PInf \<and> cpk r = PInf)"
proof -
  have r: "\<forall>x. 0 \<le> softsign_cdf x \<and> softsign_cdf x \<le> 1"
    by (simp add: softsign_cdf_range)
  have h: "softsign_cdf 0 = 1 / 2" by (rule softsign_cdf_zero)
  have a: "(2::nat) \<le> 3" and b: "(3::nat) \<le> 4" and c: "(0::real) < 5" and e: "(5::real) < 10"
    by simp_all
  show ?thesis
    using r h constant_series_infinite_indices[OF r h a b c e] by simp
qed

text \<open>
  C7 as stated fails for a window of one sample: on the constant series of the single
  value 5 with limits 0 and 10 and window 1, the length is not less than the window, yet
  \<open>std\<close>, \<open>std_within\<close>, \<open>ppk\<close> and \<open>cpk\<close> are all NaN.
\<close>

theorem constant_single_sample_counterexample:
  "(0::real) < 5 \<and> (5::real) < 10 \<and> int (length (replicate 1 (5::real))) \<ge> 1
   \<and> calculate_process softsign_cdf (replicate 1 5) 0 10 1 =
       Inr \<lparr>sample_size = 1, mean = Fin 5, std = NaN, std_within = NaN,
            ppk = NaN, cpk = NaN, min_val = Fin 5, max_val = Fin 5\<rparr>"
proof -
  have "map2 fsub (rolling_max 1 [5]) (rolling_min 1 [5]) = [Fin 0]"
    by (simp add: rolling_max_def rolling_min_def rolling_def fsub_def)
  then have sw: "nan_mean (map (\<lambda>r. fdiv r (Fin (calculate_d2 softsign_cdf 1)))
              (map2 fsub (rolling_max 1 [5]) (rolling_min 1 [5]))) = NaN"
    using d2_one[of softsign_cdf] by (simp add: nan_mean_def np_mean_def)
  show ?thesis
    using sw
    by (simp add: calculate_process_Inr series_mean_def series_std_def series_min_def series_max_def
        fsub_def)
qed

section \<open>The capability indices and the order of the samples\<close>

text \<open>
  C2: \<open>calculate_process\<close> returns the mean and the sample standard deviation of the
  series, \<open>ppk\<close> is the minimum of \<open>(USL - mu) / (3 * std)\<close> and \<open>(mu - LSL) / (3 * std)\<close>, and
  \<open>cpk\<close> is the same minimum with \<open>std_within\<close> in place of \<open>std\<close>; the quotients and the
  minimum are those of doubles, and they are the real ones as soon as the mean is finite
  and the deviation is finite and not zero.
\<close>

theorem capability_indices_formula:
  assumes "0 \<le> window"
  shows "\<exists>r. calculate_process cdf samples LSL USL window = Inr r
           \<and> mean r = series_mean samples \<and> std r = series_std samples
           \<and> ppk r = np_min (fdiv (fsub (Fin USL) (mean r)) (fmul (Fin 3) (std r)))
                             (fdiv (fsub (mean r) (Fin LSL)) (fmul (Fin 3) (std r)))
           \<and> cpk r = np_min (fdiv (fsub (Fin USL) (mean r)) (fmul (Fin 3) (std_within r)))
                             (fdiv (fsub (mean r) (Fin LSL)) (fmul (Fin 3) (std_within r)))
           \<and> (\<forall>mu s. mean r = Fin mu \<and> std r = Fin s \<and> s \<noteq> 0 \<longrightarrow>
                  ppk r = Fin (min ((USL - mu) / (3 * s)) ((mu - LSL) / (3 * s))))
           \<and> (\<forall>mu s. mean r = Fin mu \<and> std_within r = Fin s \<and> s \<noteq> 0 \<longrightarrow>
                  cpk r = Fin (min ((USL - mu) / (3 * s)) ((mu - LSL) / (3 * s))))"
  unfolding calculate_process_Inr[OF assms]
  by (auto simp: fsub_def min_def)

lemma window_ranges_123: "window_ranges 2 [1, 2, 3 :: real] = [1, 1]"
  by (simp add: window_ranges_def upt_rec)

lemma window_ranges_132: "window_ranges 2 [1, 3, 2 :: real] = [2, 1]"
  by (simp add: window_ranges_def upt_rec)

lemma softsign_d2_pos: "0 < calculate_d2 softsign_cdf 2"
  by (rule d2_pos) (simp_all add: softsign_cdf_range softsign_cdf_zero)

lemma std_within_field:
  assumes "calculate_process cdf xs LSL USL (int w) = Inr r"
    and "1 \<le> w" and "w \<le> length xs" and "calculate_d2 cdf w \<noteq> 0"
  shows "std_within r = Fin (arith_mean (window_ranges w xs) / calculate_d2 cdf w)"
proof -
  have "std_within r = nan_mean (map (\<lambda>r. fdiv r (Fin (calculate_d2 cdf w)))
          (map2 fsub (rolling_max w xs) (rolling_min w xs)))"
    using assms(1) by (auto simp: calculate_process_Inr)
  then show ?thesis
    unfolding std_within_eq[OF assms(2,3,4)] .
qed

theorem capability_indices_formula_witness:
  "(0::int) \<le> 2
   \<and> (\<exists>r. calculate_process softsign_cdf [1, 2, 3] 0 4 2 = Inr r
           \<and> mean r = Fin 2 \<and> std r = Fin 1
           \<and> ppk r = Fin (2 / 3)
           \<and> cpk r = Fin (2 * calculate_d2 softsign_cdf 2 / 3))"
proof -
  have h: "(0::int) \<le> 2" by simp
  obtain r where r: "calculate_process softsign_cdf [1, 2, 3] 0 4 2 = Inr r"
    and m: "mean r = series_mean [1, 2, 3]" and s: "std r = series_std [1, 2, 3]"
    and pk: "\<forall>mu s. mean r = Fin mu \<and> std r = Fin s \<and> s \<noteq> 0 \<longrightarrow>
                  ppk r = Fin (min ((4 - mu) / (3 * s)) ((mu - 0) / (3 * s)))"
    and ck: "\<forall>mu s. mean r = Fin mu \<and> std_within r = Fin s \<and> s \<noteq> 0 \<longrightarrow>
                  cpk r = Fin (min ((4 - mu) / (3 * s)) ((mu - 0) / (3 * s)))"
    using capability_indices_formula[OF h, of softsign_cdf "[1, 2, 3]" 0 4] by blast
  have m2: "mean r = Fin 2"
    unfolding m by (simp add: series_mean_def)
  have s1: "std r = Fin 1"
    unfolding s by (simp add: series_std_def)
  have d: "calculate_d2 softsign_cdf 2 \<noteq> 0"
    using softsign_d2_pos by simp
  have "calculate_process softsign_cdf [1, 2, 3] 0 4 (int 2) = Inr r"
    using r by simp
  then have "std_within r = Fin (arith_mean (window_ranges 2 [1, 2, 3]) / calculate_d2 softsign_cdf 2)"
    using d by (intro std_within_field) simp_all
  then have sw: "std_within r = Fin (1 / calculate_d2 softsign_cdf 2)"
    by (simp add: window_ranges_123 arith_mean_def)
  have "ppk r = Fin (min ((4 - 2) / (3 * 1)) ((2 - 0) / (3 * 1)))"
    using pk m2 s1 by simp
  then have p: "ppk r = Fin (2 / 3)" by simp
  have "cpk r = Fin (min ((4 - 2) / (3 * (1 / calculate_d2 softsign_cdf 2)))
                         ((2 - 0) / (3 * (1 / calculate_d2 softsign_cdf 2))))"
    using ck m2 sw d by simp
  then have c: "cpk r = Fin (2 * calculate_d2 softsign_cdf 2 / 3)" by simp
  show ?thesis
    using h r m2 s1 p c by blast
qed

lemma sum_list_mset_cong:
  fixes xs ys :: "real list"
  assumes "mset xs = mset ys"
  shows "sum_list xs = sum_list ys"
  using assms by (metis sum_mset_sum_list)

lemma sum_list_map_mset_cong:
  fixes xs ys :: "real list" and f :: "real \<Rightarrow> real"
  assumes "mset xs = mset ys"
  shows "sum_list (map f xs) = sum_list (map f ys)"
proof -
  have "mset (map f xs) = mset (map f ys)"
    using assms by simp
  then show ?thesis by (rule sum_list_mset_cong)
qed

lemma series_mean_perm:
  assumes "mset xs = mset ys"
  shows "series_mean xs = series_mean ys"
proof -
  have "length xs = length ys" using assms by (rule mset_eq_length)
  moreover have "sum_list xs = sum_list ys" using assms by (rule sum_list_mset_cong)
  ultimately show ?thesis by (auto simp: series_mean_def)
qed

lemma series_std_perm:
  assumes "mset xs = mset ys"
  shows "series_std xs = series_std ys"
proof -
  have l: "length xs = length ys" using assms by (rule mset_eq_length)
  have s: "sum_list xs = sum_list ys" using assms by (rule sum_list_mset_cong)
  have "sum_list (map (\<lambda>x. (sum_list ys / real (length ys) - x)\<^sup>2) xs)
        = sum_list (map (\<lambda>x. (sum_list ys / real (length ys) - x)\<^sup>2) ys)"
    using assms by (rule sum_list_map_mset_cong)
  then show ?thesis
    by (simp add: series_std_def Let_def l s)
qed

lemma series_min_max_perm:
  assumes "mset xs = mset ys"
  shows "series_min xs = series_min ys" and "series_max xs = series_max ys"
proof -
  have "set xs = set ys" using assms by (rule mset_eq_setD)
  moreover have "xs = [] \<longleftrightarrow> ys = []"
    using mset_eq_length[OF assms] by auto
  ultimately show "series_min xs = series_min ys" and "series_max xs = series_max ys"
    by (simp_all add: series_min_def series_max_def)
qed

text \<open>
  C9: on a permutation of the series \<open>calculate_process\<close> returns the same \<open>mean\<close>, \<open>std\<close>,
  \<open>min\<close> and \<open>max\<close>; and there are a series and a permutation of it on which \<open>std_within\<close>
  differs.
\<close>

theorem order_sensitivity:
  assumes "\<forall>x. 0 \<le> cdf x \<and> cdf x \<le> 1" and "cdf 0 = 1 / 2"
    and "mset xs = mset ys" and "0 \<le> window"
  shows "(\<exists>r r'. calculate_process cdf xs LSL USL window = Inr r
            \<and> calculate_process cdf ys LSL USL window = Inr r'
            \<and> mean r = mean r' \<and> std r = std r'
            \<and> min_val r = min_val r' \<and> max_val r = max_val r')
       \<and> (\<exists>us vs r r'. mset us = mset vs
            \<and> calculate_process cdf us LSL USL 2 = Inr r
            \<and> calculate_process cdf vs LSL USL 2 = Inr r'
            \<and> std_within r \<noteq> std_within r')"
proof
  show "\<exists>r r'. calculate_process cdf xs LSL USL window = Inr r
            \<and> calculate_process cdf ys LSL USL window = Inr r'
            \<and> mean r = mean r' \<and> std r = std r'
            \<and> min_val r = min_val r' \<and> max_val r = max_val r'"
    unfolding calculate_process_Inr[OF assms(4)]
    using series_mean_perm[OF assms(3)] series_std_perm[OF assms(3)]
      series_min_max_perm[OF assms(3)]
    by simp
next
  have "0 < calculate_d2 cdf 2"
    using assms(1,2) by (intro d2_pos) auto
  then have d: "calculate_d2 cdf 2 \<noteq> 0" by simp
  obtain r where r: "calculate_process cdf [1, 2, 3] LSL USL (int 2) = Inr r"
    by (simp add: calculate_process_Inr)
  obtain r' where r': "calculate_process cdf [1, 3, 2] LSL USL (int 2) = Inr r'"
    by (simp add: calculate_process_Inr)
  have "std_within r = Fin (arith_mean (window_ranges 2 [1, 2, 3]) / calculate_d2 cdf 2)"
    using r d by (intro std_within_field) simp_all
  then have a: "std_within r = Fin (1 / calculate_d2 cdf 2)"
    by (simp add: window_ranges_123 arith_mean_def)
  have "std_within r' = Fin (arith_mean (window_ranges 2 [1, 3, 2]) / calculate_d2 cdf 2)"
    using r' d by (intro std_within_field) simp_all
  then have b: "std_within r' = Fin (3 / 2 / calculate_d2 cdf 2)"
    by (simp add: window_ranges_132 arith_mean_def)
  have ne: "std_within r \<noteq> std_within r'"
    unfolding a b using d by (simp add: field_simps)
  have p: "mset [1, 2, 3 :: real] = mset [1, 3, 2]"
    by (simp add: add_mset_commute)
  show "\<exists>us vs r r'. mset us = mset vs
            \<and> calculate_process cdf us LSL USL 2 = Inr r
            \<and> calculate_process cdf vs LSL USL 2 = Inr r'
            \<and> std_within r \<noteq> std_within r'"
    using p r r' ne by (intro exI[of _ "[1, 2, 3]"] exI[of _ "[1, 3, 2]"] exI[of _ r] exI[of _ r']) simp
qed

theorem order_sensitivity_witness:
  "(\<forall>x. 0 \<le> softsign_cdf x \<and> softsign_cdf x \<le> 1) \<and> softsign_cdf 0 = 1 / 2
   \<and> mset [4, 1, 3 :: real] = mset [1, 3, 4] \<and> (0::int) \<le> 2
   \<and> (\<exists>r r'. calculate_process softsign_cdf [4, 1, 3] 0 5 2 = Inr r
            \<and> calculate_process softsign_cdf [1, 3, 4] 0 5 2 = Inr r'
            \<and> mean r = mean r' \<and> std r = std r'
            \<and> min_val r = min_val r' \<and> max_val r = max_val r')
   \<and> (\<exists>us vs r r'. mset us = mset vs
            \<and> calculate_process softsign_cdf us 0 5 2 = Inr r
            \<and> calculate_process softsign_cdf vs 0 5 2 = Inr r'
            \<and> std_within r \<noteq> std_within r')"
proof -
  have r: "\<forall>x. 0 \<le> softsign_cdf x \<and> softsign_cdf x \<le> 1"
    by (simp add: softsign_cdf_range)
  have h: "softsign_cdf 0 = 1 / 2" by (rule softsign_cdf_zero)
  have p: "mset [4, 1, 3 :: real] = mset [1, 3, 4]" by (simp add: add_mset_commute)
  have w: "(0::int) \<le> 2" by simp
  show ?thesis
    using r h p w order_sensitivity[OF r h p w, of 0 5] by blast
qed

end
